theory Spec2Isabelle
  imports Main
begin

section \<open>The HTTP surface of the emulator: route table and server lifecycle\<close>

text \<open>
  This theory embeds \<^verbatim>\<open>api/router.go\<close>: the method \<^verbatim>\<open>CreateRouter\<close>, which builds the
  gin engine (global mode, middleware chain, route table), and the method \<^verbatim>\<open>Start\<close>,
  which selects the listener and coordinates start-up and shutdown.

  The file calls into three things that are not part of it: the gin library (engine,
  middleware chain, route registration), Go's \<^verbatim>\<open>net/http\<close> server, and the repository's
  own middleware and handlers. The first two are modelled by the few rules
  of their documented behaviour that the file relies on; the third is kept symbolic (a handler is
  a name) or, where a property depends on what a middleware does, given as stated below.
\<close>

subsection \<open>Configuration\<close>

text \<open>
  The fields of \<^verbatim>\<open>config.ServerConfig\<close> that \<^verbatim>\<open>router.go\<close> reads. Go strings are byte
  strings and \<^verbatim>\<open>==\<close> on them is byte equality, as equality of \<^typ>\<open>string\<close> is.
\<close>

record ServerConfig =
  Port :: int
  DisableTls :: bool
  TLS_CertificatePath :: string
  TLS_CertificateKey :: string
  LogLevel :: string

subsection \<open>The gin engine\<close>

text \<open>
  Every gin handler and middleware is a \<^verbatim>\<open>gin.HandlerFunc\<close>. The route handlers are the
  methods of \<^verbatim>\<open>handlers.Handlers\<close> named in \<^verbatim>\<open>CreateRouter\<close>; \<open>ExplorerHandler\<close> stands
  for whatever \<^verbatim>\<open>RegisterExplorerHandlers\<close> installs.
\<close>

datatype route_handler =
    GetPartitionKeyRanges
  | DocumentsPost | GetAllDocuments | GetDocument | ReplaceDocument | PatchDocument
  | DeleteDocument
  | CreateCollection | GetAllCollections | GetCollection | DeleteCollection
  | CreateDatabase | GetAllDatabases | GetDatabase | DeleteDatabase
  | CreateTrigger | GetAllTriggers | GetTrigger | ReplaceTrigger | DeleteTrigger
  | CreateStoredProcedure | GetAllStoredProcedures | GetStoredProcedure
  | ReplaceStoredProcedure | DeleteStoredProcedure
  | CreateUserDefinedFunction | GetAllUserDefinedFunctions | GetUserDefinedFunction
  | ReplaceUserDefinedFunction | DeleteUserDefinedFunction
  | GetOffers | GetServerInfo | CosmiumExport
  | ExplorerHandler string

datatype handler_func =
    Logger | Recovery
  | RequestLogger | StripTrailingSlashes | Authentication
  | Handler route_handler

datatype gin_mode = DebugMode | ReleaseMode | TestMode

datatype writer = Stdout | Stderr | InfoWriter | ErrorWriter

text \<open>The package-level variables of gin that \<^verbatim>\<open>CreateRouter\<close> assigns under \<^verbatim>\<open>ginMux\<close>.\<close>

record gin_globals =
  ginMode :: gin_mode
  DefaultWriter :: writer
  DefaultErrorWriter :: writer

record RouteInfo =
  Method :: string
  Path :: string
  HandlersChain :: "handler_func list"

text \<open>
  The engine: the flag \<^verbatim>\<open>RedirectTrailingSlash\<close>, the handlers of the root router group,
  the chain run when no route matches (\<^verbatim>\<open>allNoRoute\<close>), and the registered routes in
  registration order.
\<close>

record Engine =
  RedirectTrailingSlash :: bool
  Handlers :: "handler_func list"
  allNoRoute :: "handler_func list"
  routes :: "RouteInfo list"

text \<open>\<^verbatim>\<open>gin.New\<close>: trailing-slash redirection is on by default, nothing is registered.\<close>

definition gin_New :: "(Engine \<Rightarrow> Engine) list \<Rightarrow> Engine" where
  "gin_New opts =
     fold (\<lambda>opt e. opt e) opts
       \<lparr>RedirectTrailingSlash = True, Handlers = [], allNoRoute = [], routes = []\<rparr>"

text \<open>
  \<^verbatim>\<open>engine.Use\<close> appends to the group's handlers and rebuilds the no-route chain from
  them (no \<^verbatim>\<open>NoRoute\<close> handler is ever set in this file).
\<close>

definition Use :: "handler_func list \<Rightarrow> Engine \<Rightarrow> Engine" where
  "Use middleware e =
     e\<lparr>Handlers := Handlers e @ middleware, allNoRoute := Handlers e @ middleware\<rparr>"

text \<open>\<^verbatim>\<open>gin.Default\<close>: a new engine with gin's own Logger and Recovery, then the options.\<close>

definition gin_Default :: "(Engine \<Rightarrow> Engine) list \<Rightarrow> Engine" where
  "gin_Default opts = fold (\<lambda>opt e. opt e) opts (Use [Logger, Recovery] (gin_New []))"

text \<open>
  \<^verbatim>\<open>group.handle\<close>: the route is stored with the group's handlers at the moment of
  registration followed by the handlers given. (gin panics when a method and path are
  registered twice; the registrations of \<^verbatim>\<open>CreateRouter\<close> are pairwise distinct, which is
  part of the first theorem on the route table.)
\<close>

definition handle :: "string \<Rightarrow> string \<Rightarrow> handler_func list \<Rightarrow> Engine \<Rightarrow> Engine" where
  "handle httpMethod relativePath hs e =
     e\<lparr>routes := routes e @
        [\<lparr>Method = httpMethod, Path = relativePath, HandlersChain = Handlers e @ hs\<rparr>]\<rparr>"

definition GET :: "string \<Rightarrow> route_handler \<Rightarrow> Engine \<Rightarrow> Engine" where
  "GET p h = handle ''GET'' p [Handler h]"

definition POST :: "string \<Rightarrow> route_handler \<Rightarrow> Engine \<Rightarrow> Engine" where
  "POST p h = handle ''POST'' p [Handler h]"

definition PUT :: "string \<Rightarrow> route_handler \<Rightarrow> Engine \<Rightarrow> Engine" where
  "PUT p h = handle ''PUT'' p [Handler h]"

definition PATCH :: "string \<Rightarrow> route_handler \<Rightarrow> Engine \<Rightarrow> Engine" where
  "PATCH p h = handle ''PATCH'' p [Handler h]"

definition DELETE :: "string \<Rightarrow> route_handler \<Rightarrow> Engine \<Rightarrow> Engine" where
  "DELETE p h = handle ''DELETE'' p [Handler h]"

subsection \<open>CreateRouter\<close>

text \<open>
  Modelled from the spec: \<^verbatim>\<open>RegisterExplorerHandlers\<close> is not in the file. The spec calls
  what it adds "additional static routes for an embedded web explorer", so it is a list
  of routes (method, path, handlers) registered on the router it is given, each through
  \<^verbatim>\<open>handle\<close>.
\<close>

type_synonym explorer_routes = "(string \<times> string \<times> handler_func list) list"

definition RegisterExplorerHandlers :: "explorer_routes \<Rightarrow> Engine \<Rightarrow> Engine" where
  "RegisterExplorerHandlers ex router = fold (\<lambda>(m, p, hs) e. handle m p hs e) ex router"

text \<open>Lines 27 to 29: the mode is set to release unless the log level is "debug".\<close>

definition setGinGlobals :: "ServerConfig \<Rightarrow> gin_globals \<Rightarrow> gin_globals" where
  "setGinGlobals config g =
     (let g = g\<lparr>DefaultWriter := InfoWriter\<rparr>;
          g = g\<lparr>DefaultErrorWriter := ErrorWriter\<rparr>
      in if LogLevel config \<noteq> ''debug'' then g\<lparr>ginMode := ReleaseMode\<rparr> else g)"

text \<open>Lines 32 to 41: the engine and its middleware, in the order of the calls.\<close>

definition routerWithMiddleware :: "ServerConfig \<Rightarrow> Engine" where
  "routerWithMiddleware config =
     (let router = gin_Default [\<lambda>e. e\<lparr>RedirectTrailingSlash := False\<rparr>];
          router = (if LogLevel config = ''debug'' then Use [RequestLogger] router else router);
          router = Use [StripTrailingSlashes] router;
          router = Use [Authentication] router
      in router)"

text \<open>Lines 43 to 83: the route registrations, in the order of the calls.\<close>

definition registerRoutes :: "Engine \<Rightarrow> Engine" where
  "registerRoutes router =
     (let router = GET ''/dbs/:databaseId/colls/:collId/pkranges'' GetPartitionKeyRanges router;

          router = POST ''/dbs/:databaseId/colls/:collId/docs'' DocumentsPost router;
          router = GET ''/dbs/:databaseId/colls/:collId/docs'' GetAllDocuments router;
          router = GET ''/dbs/:databaseId/colls/:collId/docs/:docId'' GetDocument router;
          router = PUT ''/dbs/:databaseId/colls/:collId/docs/:docId'' ReplaceDocument router;
          router = PATCH ''/dbs/:databaseId/colls/:collId/docs/:docId'' PatchDocument router;
          router = DELETE ''/dbs/:databaseId/colls/:collId/docs/:docId'' DeleteDocument router;

          router = POST ''/dbs/:databaseId/colls'' CreateCollection router;
          router = GET ''/dbs/:databaseId/colls'' GetAllCollections router;
          router = GET ''/dbs/:databaseId/colls/:collId'' GetCollection router;
          router = DELETE ''/dbs/:databaseId/colls/:collId'' DeleteCollection router;

          router = POST ''/dbs'' CreateDatabase router;
          router = GET ''/dbs'' GetAllDatabases router;
          router = GET ''/dbs/:databaseId'' GetDatabase router;
          router = DELETE ''/dbs/:databaseId'' DeleteDatabase router;

          router = POST ''/dbs/:databaseId/colls/:collId/triggers'' CreateTrigger router;
          router = GET ''/dbs/:databaseId/colls/:collId/triggers'' GetAllTriggers router;
          router = GET ''/dbs/:databaseId/colls/:collId/triggers/:triggerId'' GetTrigger router;
          router = PUT ''/dbs/:databaseId/colls/:collId/triggers/:triggerId'' ReplaceTrigger router;
          router = DELETE ''/dbs/:databaseId/colls/:collId/triggers/:triggerId'' DeleteTrigger router;

          router = POST ''/dbs/:databaseId/colls/:collId/sprocs'' CreateStoredProcedure router;
          router = GET ''/dbs/:databaseId/colls/:collId/sprocs'' GetAllStoredProcedures router;
          router = GET ''/dbs/:databaseId/colls/:collId/sprocs/:sprocId'' GetStoredProcedure router;
          router = PUT ''/dbs/:databaseId/colls/:collId/sprocs/:sprocId'' ReplaceStoredProcedure router;
          router = DELETE ''/dbs/:databaseId/colls/:collId/sprocs/:sprocId'' DeleteStoredProcedure router;

          router = POST ''/dbs/:databaseId/colls/:collId/udfs'' CreateUserDefinedFunction router;
          router = GET ''/dbs/:databaseId/colls/:collId/udfs'' GetAllUserDefinedFunctions router;
          router = GET ''/dbs/:databaseId/colls/:collId/udfs/:udfId'' GetUserDefinedFunction router;
          router = PUT ''/dbs/:databaseId/colls/:collId/udfs/:udfId'' ReplaceUserDefinedFunction router;
          router = DELETE ''/dbs/:databaseId/colls/:collId/udfs/:udfId'' DeleteUserDefinedFunction router;

          router = GET ''/offers'' GetOffers router;
          router = GET ''/'' GetServerInfo router;

          router = GET ''/cosmium/export'' CosmiumExport router
      in router)"

text \<open>
  The server object: the fields of \<^verbatim>\<open>ApiServer\<close> that \<^verbatim>\<open>CreateRouter\<close> and \<^verbatim>\<open>Start\<close>
  read and write. \<open>router\<close> is \<open>None\<close> until \<^verbatim>\<open>CreateRouter\<close> has run.
\<close>

record ApiServer =
  config :: ServerConfig
  router :: "Engine option"
  isActive :: bool

text \<open>
  \<^verbatim>\<open>CreateRouter\<close> as a whole: it updates gin's globals and stores the engine in the
  server. The data store argument only parameterises the route handlers, which are
  symbolic here.
\<close>

definition buildRouter :: "ServerConfig \<Rightarrow> explorer_routes \<Rightarrow> Engine" where
  "buildRouter cfg ex = RegisterExplorerHandlers ex (registerRoutes (routerWithMiddleware cfg))"

definition CreateRouter :: "explorer_routes \<Rightarrow> ApiServer \<times> gin_globals \<Rightarrow> ApiServer \<times> gin_globals" where
  "CreateRouter ex = (\<lambda>(s, g).
     (s\<lparr>router := Some (buildRouter (config s) ex)\<rparr>, setGinGlobals (config s) g))"

subsection \<open>Path templates\<close>

text \<open>
  A gin path is a sequence of segments separated by \<^verbatim>\<open>/\<close>; a segment that starts with
  \<^verbatim>\<open>:\<close> is a named parameter, one that starts with \<^verbatim>\<open>*\<close> a catch-all, any other is
  static text.
\<close>

fun splitc :: "char \<Rightarrow> string \<Rightarrow> string list" where
  "splitc c [] = [[]]"
| "splitc c (x # xs) =
     (if x = c then [] # splitc c xs
      else (let r = splitc c xs in (x # hd r) # tl r))"

datatype segment = Static string | Param string | CatchAll string

fun to_segment :: "string \<Rightarrow> segment" where
  "to_segment [] = Static []"
| "to_segment (c # cs) =
     (if c = CHR '':'' then Param cs
      else if c = CHR ''*'' then CatchAll cs
      else Static (c # cs))"

definition template :: "string \<Rightarrow> segment list" where
  "template p = map to_segment (splitc CHR ''/'' p)"

text \<open>
  The spec writes its path variables \<^verbatim>\<open>:db\<close>, \<^verbatim>\<open>:coll\<close>, \<^verbatim>\<open>:doc\<close> where the code writes
  \<^verbatim>\<open>:databaseId\<close>, \<^verbatim>\<open>:collId\<close>, \<^verbatim>\<open>:docId\<close>; "\<^verbatim>\<open>:x\<close> denotes a path variable". Two
  templates are the same route when they agree up to the names of their variables.
\<close>

fun erase_name :: "segment \<Rightarrow> segment" where
  "erase_name (Static s) = Static s"
| "erase_name (Param n) = Param []"
| "erase_name (CatchAll n) = CatchAll []"

definition route_key :: "string \<times> string \<Rightarrow> string \<times> segment list" where
  "route_key = (\<lambda>(m, p). (m, map erase_name (template p)))"

definition registered :: "Engine \<Rightarrow> (string \<times> string) list" where
  "registered e = map (\<lambda>r. (Method r, Path r)) (routes e)"

subsection \<open>The route table as the spec lists it\<close>

text \<open>
  The Routes section of the spec, line by line; \<^verbatim>\<open>POST|GET /dbs\<close> stands for the two
  pairs, and the line on triggers, sprocs and UDFs for \<^verbatim>\<open>POST|GET\<close> on the collection
  subpath and \<^verbatim>\<open>GET|PUT|DELETE\<close> on the individual id, for each of the three kinds.
\<close>

definition methods_on :: "string list \<Rightarrow> string \<Rightarrow> (string \<times> string) list" where
  "methods_on ms p = map (\<lambda>m. (m, p)) ms"

definition spec_script_routes :: "string \<Rightarrow> (string \<times> string) list" where
  "spec_script_routes kind =
     methods_on [''POST'', ''GET''] (''/dbs/:db/colls/:coll/'' @ kind) @
     methods_on [''GET'', ''PUT'', ''DELETE''] (''/dbs/:db/colls/:coll/'' @ kind @ ''/:id'')"

definition spec_routes :: "(string \<times> string) list" where
  "spec_routes =
     methods_on [''GET''] ''/'' @
     methods_on [''GET''] ''/offers'' @
     methods_on [''POST'', ''GET''] ''/dbs'' @
     methods_on [''GET'', ''DELETE''] ''/dbs/:db'' @
     methods_on [''POST'', ''GET''] ''/dbs/:db/colls'' @
     methods_on [''GET'', ''DELETE''] ''/dbs/:db/colls/:coll'' @
     methods_on [''GET''] ''/dbs/:db/colls/:coll/pkranges'' @
     methods_on [''POST'', ''GET''] ''/dbs/:db/colls/:coll/docs'' @
     methods_on [''GET'', ''PUT'', ''PATCH'', ''DELETE''] ''/dbs/:db/colls/:coll/docs/:doc'' @
     concat (map spec_script_routes [''triggers'', ''sprocs'', ''udfs'']) @
     methods_on [''GET''] ''/cosmium/export''"

subsection \<open>Serving a request\<close>

text \<open>
  What the engine reads of a request: the method, the URL path and the headers.
\<close>

record request =
  httpMethod :: string
  urlPath :: string
  header :: "(string \<times> string) list"

text \<open>
  What a run of the engine on one request does, in order: handlers executed (each with
  the request as it saw it), the engine being asked to serve a rewritten request
  (\<^verbatim>\<open>HandleContext\<close>), and responses written by the engine or by a middleware that
  aborts.
\<close>

datatype event =
    Ran handler_func request
  | HandleContext request
  | Redirected
  | Unauthorized
  | NotFound

text \<open>
  The events after which the response has been written: a route handler has run, the
  engine has served the request again (which always ends with a written response), or
  a redirect, a 401 or a 404 has been sent.
\<close>

fun is_response :: "event \<Rightarrow> bool" where
  "is_response (Ran (Handler h) r) = True"
| "is_response (Ran m r) = False"
| "is_response e = True"

text \<open>
  Modelled from the spec: \<^verbatim>\<open>middleware.StripTrailingSlashes\<close> is not in the file. The
  spec says that requests with trailing slashes are rewritten by a prefix middleware to
  the canonical form before dispatch: when the path carries a trailing slash the
  middleware removes it and hands the rewritten request back to the router it was given
  (the result \<open>Some\<close>), and the chain it was running in stops; otherwise the chain goes
  on. The root path \<^verbatim>\<open>/\<close> is a registered route and is left as it is.
\<close>

definition hasTrailingSlash :: "string \<Rightarrow> bool" where
  "hasTrailingSlash p = (1 < length p \<and> last p = CHR ''/'')"

definition stripTrailingSlashes :: "request \<Rightarrow> request option" where
  "stripTrailingSlashes r =
     (if hasTrailingSlash (urlPath r) then Some (r\<lparr>urlPath := butlast (urlPath r)\<rparr>)
      else None)"

text \<open>
  Modelled from the spec: \<^verbatim>\<open>middleware.Authentication\<close> is not in the file. The spec says
  that any mismatch of the master key returns 401 and that authentication failures
  short-circuit: the middleware writes 401 and aborts the chain when its verdict on the
  request is negative (the result \<open>Some\<close>), and lets the chain go on otherwise. The
  verdict itself is the argument \<open>auth\<close>.
\<close>

definition authentication :: "(request \<Rightarrow> bool) \<Rightarrow> request \<Rightarrow> event option" where
  "authentication auth r = (if auth r then None else Some Unauthorized)"

text \<open>The canonical form of a path: no trailing slash is left to remove.\<close>

function canonical :: "string \<Rightarrow> string" where
  "canonical p = (if hasTrailingSlash p then canonical (butlast p) else p)"
  by pat_completeness auto
termination
  by (relation "measure length") (auto simp: hasTrailingSlash_def)

declare canonical.simps [simp del]

text \<open>
  gin's \<^verbatim>\<open>handleHTTPRequest\<close> and \<^verbatim>\<open>Context.Next\<close>. The lookup in the method trees is
  the argument \<open>getValue\<close>: for a method and a path it gives the handlers of the matching
  route, if any, and the flag \<^verbatim>\<open>tsr\<close> (a route exists for the path with its trailing
  slash added or removed). A matching route's chain is run. With no match, the engine
  redirects if \<^verbatim>\<open>tsr\<close> and \<^verbatim>\<open>RedirectTrailingSlash\<close> hold (and the path is not the root,
  the method not CONNECT); otherwise it runs the no-route chain and writes 404 unless a
  response has been written. \<^verbatim>\<open>RedirectFixedPath\<close> and \<^verbatim>\<open>HandleMethodNotAllowed\<close> are off
  in a new engine and \<^verbatim>\<open>CreateRouter\<close> leaves them so.

  A chain runs its handlers in order until one aborts. StripTrailingSlashes and
  Authentication do what is said above; gin's Logger and Recovery, the request logger
  and the route handlers let the chain go on.
\<close>

type_synonym tree_lookup = "string \<Rightarrow> string \<Rightarrow> handler_func list option \<times> bool"

function handleHTTPRequest :: "tree_lookup \<Rightarrow> (request \<Rightarrow> bool) \<Rightarrow> Engine \<Rightarrow> request \<Rightarrow> event list"
  and Next :: "tree_lookup \<Rightarrow> (request \<Rightarrow> bool) \<Rightarrow> Engine \<Rightarrow> handler_func list \<Rightarrow> request \<Rightarrow> event list"
where
  "handleHTTPRequest getValue auth e r =
     (case getValue (httpMethod r) (urlPath r) of
        (Some hs, tsr) \<Rightarrow> Next getValue auth e hs r
      | (None, tsr) \<Rightarrow>
          if httpMethod r \<noteq> ''CONNECT'' \<and> urlPath r \<noteq> ''/'' \<and> tsr \<and> RedirectTrailingSlash e
          then [Redirected]
          else (let evs = Next getValue auth e (allNoRoute e) r
                in if list_ex is_response evs then evs else evs @ [NotFound]))"
| "Next getValue auth e [] r = []"
| "Next getValue auth e (h # hs) r =
     (if h = StripTrailingSlashes then
        (case stripTrailingSlashes r of
           Some r' \<Rightarrow> Ran h r # HandleContext r' # handleHTTPRequest getValue auth e r'
         | None \<Rightarrow> Ran h r # Next getValue auth e hs r)
      else if h = Authentication then
        (case authentication auth r of
           Some response \<Rightarrow> [Ran h r, response]
         | None \<Rightarrow> Ran h r # Next getValue auth e hs r)
      else Ran h r # Next getValue auth e hs r)"
  by pat_completeness auto
termination
  by (relation "measures
        [\<lambda>x. case x of Inl (g, a, e, r) \<Rightarrow> length (urlPath r)
                      | Inr (g, a, e, hs, r) \<Rightarrow> length (urlPath r),
         \<lambda>x. case x of Inl _ \<Rightarrow> 1 | Inr _ \<Rightarrow> 0,
         \<lambda>x. case x of Inl _ \<Rightarrow> 0 | Inr (g, a, e, hs, r) \<Rightarrow> length hs]")
     (auto simp: stripTrailingSlashes_def hasTrailingSlash_def split: if_splits)

declare handleHTTPRequest.simps [simp del]

text \<open>
  One lookup to run the engine with: the first registered route of the method whose
  template matches the path segment by segment. A parameter matches one segment, which
  may be empty when more of the path follows (gin serves \<^verbatim>\<open>/dbs//colls\<close> by the route
  \<^verbatim>\<open>/dbs/:databaseId/colls\<close>) but not at the end of the path (\<^verbatim>\<open>/dbs/\<close> is not
  \<^verbatim>\<open>/dbs/:databaseId\<close>); a catch-all matches whatever is left.
\<close>

fun matches :: "segment list \<Rightarrow> string list \<Rightarrow> bool" where
  "matches [] [] = True"
| "matches (Static s # t) (x # xs) = (s = x \<and> matches t xs)"
| "matches (Param n # t) (x # xs) = ((x \<noteq> [] \<or> xs \<noteq> []) \<and> matches t xs)"
| "matches (CatchAll n # t) (x # xs) = True"
| "matches _ _ = False"

definition route_matches :: "string \<Rightarrow> string \<Rightarrow> RouteInfo \<Rightarrow> bool" where
  "route_matches m p r = (Method r = m \<and> matches (template (Path r)) (splitc CHR ''/'' p))"

definition firstMatch :: "Engine \<Rightarrow> tree_lookup" where
  "firstMatch e m p =
     (case find (route_matches m p) (routes e) of
        Some r \<Rightarrow> (Some (HandlersChain r), False)
      | None \<Rightarrow>
          (None, list_ex (route_matches m (if p \<noteq> [] \<and> last p = CHR ''/'' then butlast p
                                           else p @ ''/'')) (routes e)))"

subsection \<open>Start: the listener\<close>

text \<open>
  \<^verbatim>\<open>fmt.Sprintf(":%d", port)\<close>: a colon and the port in decimal.
\<close>

fun digits :: "nat \<Rightarrow> string" where
  "digits n =
     (if n < 10 then [''0123456789'' ! n]
      else digits (n div 10) @ [''0123456789'' ! (n mod 10)])"

definition itoa :: "int \<Rightarrow> string" where
  "itoa i = (if i < 0 then CHR ''-'' # digits (nat (- i)) else digits (nat i))"

text \<open>
  The \<^verbatim>\<open>http.Server\<close> that \<^verbatim>\<open>Start\<close> builds. The certificate of
  \<^verbatim>\<open>tlsprovider.GetDefaultTlsConfig\<close> belongs to the TLS materials provider and is one
  opaque value here.
\<close>

datatype tls_config = GetDefaultTlsConfig

record http_Server =
  Addr :: string
  TLSConfig :: "tls_config option"

text \<open>The call on the server in which the listener goroutine then blocks.\<close>

datatype listen_call = ListenAndServe | ListenAndServeTLS string string

datatype go_error = ErrServerClosed | DeadlineExceeded | OtherError string

datatype log_entry = LogInfo string | LogError string "go_error option"

text \<open>
  Lines 112 to 127, up to the blocking call: the server as the branch leaves it, the line
  logged, and the call made.
\<close>

definition listenAndServe :: "ServerConfig \<Rightarrow> http_Server \<Rightarrow> http_Server \<times> log_entry \<times> listen_call" where
  "listenAndServe cfg server =
     (if DisableTls cfg then
        (server, LogInfo (''Listening and serving HTTP on '' @ Addr server), ListenAndServe)
      else if TLS_CertificatePath cfg \<noteq> [] \<and> TLS_CertificateKey cfg \<noteq> [] then
        (server, LogInfo (''Listening and serving HTTPS on '' @ Addr server),
         ListenAndServeTLS (TLS_CertificatePath cfg) (TLS_CertificateKey cfg))
      else
        (let tlsConfig = GetDefaultTlsConfig;
             server = server\<lparr>TLSConfig := Some tlsConfig\<rparr>
         in (server, LogInfo (''Listening and serving HTTPS on '' @ Addr server),
             ListenAndServeTLS [] [])))"

text \<open>
  The three listener modes of the spec, and the mode a call on a server stands for in
  \<^verbatim>\<open>net/http\<close>: \<^verbatim>\<open>ListenAndServe\<close> serves plain HTTP; \<^verbatim>\<open>ListenAndServeTLS\<close> serves
  HTTPS, with the certificates of the server's \<^verbatim>\<open>TLSConfig\<close> when there are some (the
  file names may then be empty), from the two files otherwise.
\<close>

datatype listener_mode =
    PlainHTTP
  | HTTPS_OperatorFiles string string
  | HTTPS_BuiltIn tls_config

fun mode_of :: "http_Server \<Rightarrow> listen_call \<Rightarrow> listener_mode" where
  "mode_of srv ListenAndServe = PlainHTTP"
| "mode_of srv (ListenAndServeTLS certFile keyFile) =
     (case TLSConfig srv of
        Some c \<Rightarrow> HTTPS_BuiltIn c
      | None \<Rightarrow> HTTPS_OperatorFiles certFile keyFile)"

text \<open>
  The mode as the spec selects it: plain HTTP when TLS is disabled; HTTPS with the
  operator's certificate and key when both paths are configured; otherwise HTTPS with
  the built-in certificate.
\<close>

definition spec_listener_mode :: "ServerConfig \<Rightarrow> listener_mode" where
  "spec_listener_mode cfg =
     (if DisableTls cfg then PlainHTTP
      else if TLS_CertificatePath cfg \<noteq> [] \<and> TLS_CertificateKey cfg \<noteq> []
      then HTTPS_OperatorFiles (TLS_CertificatePath cfg) (TLS_CertificateKey cfg)
      else HTTPS_BuiltIn GetDefaultTlsConfig)"

text \<open>
  Lines 129 to 135, once the call has returned \<open>err\<close>: the line logged, if any, and the
  value sent on \<^verbatim>\<open>errChan\<close>. The goroutine then clears \<^verbatim>\<open>isActive\<close>.
\<close>

definition listenerDone :: "go_error option \<Rightarrow> log_entry list \<times> go_error option" where
  "listenerDone err =
     (if err \<noteq> None \<and> err \<noteq> Some ErrServerClosed
      then ([LogError ''Failed to start server:'' err], err)
      else ([], None))"

subsection \<open>Start: shutdown\<close>

text \<open>
  A \<^verbatim>\<open>context.Context\<close>, as far as \<^verbatim>\<open>Shutdown\<close> looks at it: its deadline, if it has
  one. \<^verbatim>\<open>context.TODO()\<close> is an empty context: it is never cancelled and has no deadline.
\<close>

datatype go_context = TODO | WithDeadline nat

fun Deadline :: "go_context \<Rightarrow> nat option" where
  "Deadline TODO = None"
| "Deadline (WithDeadline d) = Some d"

text \<open>
  \<^verbatim>\<open>http.Server.Shutdown\<close>, called at the instant \<open>now\<close>: it closes the listeners (their
  error is \<open>lnerr\<close>) and the idle connections, then waits for the connections in flight to
  become idle. Each of these is given by the instant at which its handler returns,
  \<open>None\<close> for a handler that never does; \<open>idle_at\<close> is the instant from which all are
  idle.

  \<^verbatim>\<open>Shutdown\<close> does not see that instant itself. It looks once when it is called and then
  polls, at intervals that grow to about half a second: when the connections are idle at
  the call it returns at once, otherwise it returns at the first poll after they have
  become idle, which is \<open>lag\<close> later. When the context expires first it returns the
  context's error. It closes no connection in flight. The result is the instant and the
  error of the return, \<open>None\<close> when it never returns.
\<close>

definition idle_at :: "nat \<Rightarrow> nat option list \<Rightarrow> nat option" where
  "idle_at now conns =
     (if list_all (\<lambda>c. c \<noteq> None) conns then Some (fold max (map the conns) now) else None)"

definition noticed_at :: "nat \<Rightarrow> nat \<Rightarrow> nat option list \<Rightarrow> nat option" where
  "noticed_at now lag conns =
     (case idle_at now conns of
        None \<Rightarrow> None
      | Some t \<Rightarrow> Some (if t = now then now else t + lag))"

definition Shutdown :: "go_context \<Rightarrow> nat \<Rightarrow> nat \<Rightarrow> nat option list \<Rightarrow> go_error option
    \<Rightarrow> (nat \<times> go_error option) option" where
  "Shutdown ctx now lag conns lnerr =
     (case (noticed_at now lag conns, Deadline ctx) of
        (Some t, None) \<Rightarrow> Some (t, lnerr)
      | (Some t, Some d) \<Rightarrow> if t \<le> d then Some (t, lnerr) else Some (max now d, Some DeadlineExceeded)
      | (None, Some d) \<Rightarrow> Some (max now d, Some DeadlineExceeded)
      | (None, None) \<Rightarrow> None)"

text \<open>
  What happens around one call of \<^verbatim>\<open>Start\<close>, with instants in nanoseconds from the call:
  whether and when the listener fails by itself, when a value arrives on \<^verbatim>\<open>stopServer\<close>,
  the connections in flight at that instant, the error of closing the listeners, the
  time \<^verbatim>\<open>Shutdown\<close> takes to notice that the connections have become idle, and the case
  \<^verbatim>\<open>select\<close> takes when the message on \<^verbatim>\<open>errChan\<close> and the timer are ready at the same
  instant.
\<close>

record environment =
  listen_failure :: "(nat \<times> go_error) option"
  stop_signal :: "nat option"
  in_flight :: "nat option list"
  close_error :: "go_error option"
  poll_lag :: nat
  tie_takes_errChan :: bool

text \<open>
  Lines 101 to 109: what the shutdown goroutine does, each event with its instant: the
  lines it logs, the calls it makes on the server, and the value it sends on
  \<^verbatim>\<open>onServerShutdown\<close>. The goroutine blocks on \<^verbatim>\<open>stopServer\<close>; it reaches the send only
  when \<^verbatim>\<open>Shutdown\<close> returns. \<^verbatim>\<open>server.Close\<close>, the call that closes the connections in
  flight, is among the events a goroutine could produce; this one has no such call.
\<close>

datatype shutdown_event =
    Logged log_entry
  | ShutdownCalled go_context
  | CloseCalled
  | Notified bool

definition shutdownGoroutine :: "environment \<Rightarrow> (nat \<times> shutdown_event) list" where
  "shutdownGoroutine env =
     (case stop_signal env of
        None \<Rightarrow> []
      | Some t0 \<Rightarrow>
          [(t0, Logged (LogInfo ''Shutting down server...'')), (t0, ShutdownCalled TODO)] @
          (case Shutdown TODO t0 (poll_lag env) (in_flight env) (close_error env) of
             None \<Rightarrow> []
           | Some (t, err) \<Rightarrow>
               (if err \<noteq> None then [(t, Logged (LogError ''Failed to shutdown server:'' err))]
                else []) @
               [(t, Notified True)]))"

definition notified_at :: "environment \<Rightarrow> nat option" where
  "notified_at env =
     map_option fst (find (\<lambda>(t, ev). ev = Notified True) (shutdownGoroutine env))"

subsection \<open>Start: the start-up window\<close>

text \<open>
  The blocking call of the listener goroutine returns when the listener fails by itself,
  or with \<^verbatim>\<open>ErrServerClosed\<close> once \<^verbatim>\<open>Shutdown\<close> has been called, whichever is first.
\<close>

definition listener_returns :: "environment \<Rightarrow> (nat \<times> go_error option) option" where
  "listener_returns env =
     (case (listen_failure env, stop_signal env) of
        (Some (t, e), Some t0) \<Rightarrow> if t \<le> t0 then Some (t, Some e) else Some (t0, Some ErrServerClosed)
      | (Some (t, e), None) \<Rightarrow> Some (t, Some e)
      | (None, Some t0) \<Rightarrow> Some (t0, Some ErrServerClosed)
      | (None, None) \<Rightarrow> None)"

text \<open>
  The server accepts new connections as long as the listener call has not returned:
  closing the listeners, which \<^verbatim>\<open>Shutdown\<close> does first, makes it return.
\<close>

definition accepting :: "environment \<Rightarrow> nat \<Rightarrow> bool" where
  "accepting env t = (case listener_returns env of None \<Rightarrow> True | Some (t', err) \<Rightarrow> t < t')"

text \<open>\<^verbatim>\<open>50 * time.Millisecond\<close>, in nanoseconds.\<close>

definition startup_window :: nat where
  "startup_window = 50 * 1000000"

text \<open>
  What one call of \<^verbatim>\<open>Start\<close> leaves: the value it returns and when, the server and the
  call of the listener, the lines the listener goroutine logs, the message left unread
  on \<^verbatim>\<open>errChan\<close> (which has room for one), and \<^verbatim>\<open>isActive\<close> as a function of the instant.
\<close>

record started =
  returned :: "go_error option"
  returned_at :: nat
  server :: http_Server
  call :: listen_call
  logged :: "(nat \<times> log_entry) list"
  errChan_unread :: "go_error option list"
  active :: "nat \<Rightarrow> bool"

datatype panic = NilPointerDereference

text \<open>
  \<^verbatim>\<open>Start\<close>. \<^verbatim>\<open>s.router.Handler()\<close> dereferences the router, which is nil before
  \<^verbatim>\<open>CreateRouter\<close>. The \<^verbatim>\<open>select\<close> at the end takes the message of the listener goroutine
  if it is there before the timer fires, the timer if that fires first.
\<close>

definition Start :: "ApiServer \<Rightarrow> environment \<Rightarrow> panic + started" where
  "Start s env =
     (case router s of
        None \<Rightarrow> Inl NilPointerDereference
      | Some r \<Rightarrow>
          (let listenAddress = '':'' @ itoa (Port (config s));
               (srv, line, c) = listenAndServe (config s) \<lparr>Addr = listenAddress, TLSConfig = None\<rparr>
           in case listener_returns env of
                None \<Rightarrow>
                  Inr \<lparr>returned = None, returned_at = startup_window, server = srv, call = c,
                       logged = [(0, line)], errChan_unread = [], active = (\<lambda>t. True)\<rparr>
              | Some (t, err) \<Rightarrow>
                  (let (lines, msg) = listenerDone err;
                       received = (t < startup_window \<or> (t = startup_window \<and> tie_takes_errChan env))
                   in Inr \<lparr>returned = (if received then msg else None),
                           returned_at = (if received then t else startup_window),
                           server = srv, call = c,
                           logged = (0, line) # map (\<lambda>l. (t, l)) lines,
                           errChan_unread = (if received then [] else [msg]),
                           active = (\<lambda>t'. t' < t)\<rparr>)))"

subsection \<open>Notions used to state the properties of a run\<close>

text \<open>
  The lookup only ever gives the chain of a route that is registered in the engine.
\<close>

definition lookup_sound :: "tree_lookup \<Rightarrow> Engine \<Rightarrow> bool" where
  "lookup_sound getValue e =
     (\<forall>m p hs tsr. getValue m p = (Some hs, tsr) \<longrightarrow> hs \<in> HandlersChain ` set (routes e))"

text \<open>In a chain, Authentication comes before the first route handler, if there is one.\<close>

fun auth_first :: "handler_func list \<Rightarrow> bool" where
  "auth_first [] = True"
| "auth_first (Authentication # hs) = True"
| "auth_first (Handler h # hs) = False"
| "auth_first (m # hs) = auth_first hs"

text \<open>
  In a run, every route handler is executed on a request that \<open>auth\<close> accepts and on which
  Authentication has been executed earlier (or which is in the list \<open>A\<close>).
\<close>

fun guarded :: "(request \<Rightarrow> bool) \<Rightarrow> request list \<Rightarrow> event list \<Rightarrow> bool" where
  "guarded auth A [] = True"
| "guarded auth A (Ran Authentication r # evs) = guarded auth (r # A) evs"
| "guarded auth A (Ran (Handler h) r # evs) = (r \<in> set A \<and> auth r \<and> guarded auth A evs)"
| "guarded auth A (ev # evs) = guarded auth A evs"

text \<open>
  The events of a run that only pass a request on or rewrite it: no authentication, no
  route handler, no response.
\<close>

fun rewrite_only :: "event \<Rightarrow> bool" where
  "rewrite_only (Ran h r) = (h = Logger \<or> h = Recovery \<or> h = RequestLogger \<or> h = StripTrailingSlashes)"
| "rewrite_only (HandleContext r) = True"
| "rewrite_only ev = False"

subsection \<open>Sample inputs\<close>

text \<open>
  A configuration, a server whose router has been created (with no explorer routes), a
  request, an environment in which the listener fails by itself at a given instant, one
  in which the stop signal arrives at once with given connections in flight, and one in
  which closing the listeners fails as well and the poll comes 300 ms late; the closed
  instances of the theorems below are stated on these.
\<close>

abbreviation sample_config :: "bool \<Rightarrow> string \<Rightarrow> string \<Rightarrow> string \<Rightarrow> ServerConfig" where
  "sample_config noTls cert key level \<equiv>
     \<lparr>Port = 8081, DisableTls = noTls, TLS_CertificatePath = cert, TLS_CertificateKey = key,
      LogLevel = level\<rparr>"

abbreviation sample_server :: "ServerConfig \<Rightarrow> ApiServer" where
  "sample_server cfg \<equiv> \<lparr>config = cfg, router = Some (buildRouter cfg []), isActive = False\<rparr>"

abbreviation sample_request :: "string \<Rightarrow> string \<Rightarrow> request" where
  "sample_request m p \<equiv> \<lparr>httpMethod = m, urlPath = p, header = []\<rparr>"

abbreviation failing_at :: "nat \<Rightarrow> environment" where
  "failing_at t \<equiv>
     \<lparr>listen_failure = Some (t, OtherError ''bind: address already in use''),
      stop_signal = None, in_flight = [], close_error = None, poll_lag = 0,
      tie_takes_errChan = True\<rparr>"

abbreviation stopped_with :: "nat option list \<Rightarrow> environment" where
  "stopped_with conns \<equiv>
     \<lparr>listen_failure = None, stop_signal = Some 0, in_flight = conns, close_error = None,
      poll_lag = 0, tie_takes_errChan = True\<rparr>"

abbreviation stopped_with_error :: "nat option list \<Rightarrow> environment" where
  "stopped_with_error conns \<equiv>
     \<lparr>listen_failure = None, stop_signal = Some 0, in_flight = conns,
      close_error = Some (OtherError ''close tcp: use of closed network connection''),
      poll_lag = 300000000, tie_takes_errChan = True\<rparr>"

section \<open>Properties of the router\<close>

subsection \<open>What registration changes\<close>

lemma handle_fields:
  "routes (handle m p hs e) = routes e @ [\<lparr>Method = m, Path = p, HandlersChain = Handlers e @ hs\<rparr>]"
  "Handlers (handle m p hs e) = Handlers e"
  "allNoRoute (handle m p hs e) = allNoRoute e"
  "RedirectTrailingSlash (handle m p hs e) = RedirectTrailingSlash e"
  by (simp_all add: handle_def)

lemmas verbs = GET_def POST_def PUT_def PATCH_def DELETE_def

lemma registerRoutes_fields:
  "Handlers (registerRoutes e) = Handlers e"
  "allNoRoute (registerRoutes e) = allNoRoute e"
  "RedirectTrailingSlash (registerRoutes e) = RedirectTrailingSlash e"
  by (simp_all add: registerRoutes_def Let_def verbs handle_fields)

lemma explorer_fields:
  "Handlers (RegisterExplorerHandlers ex e) = Handlers e"
  "allNoRoute (RegisterExplorerHandlers ex e) = allNoRoute e"
  "RedirectTrailingSlash (RegisterExplorerHandlers ex e) = RedirectTrailingSlash e"
  unfolding RegisterExplorerHandlers_def
  by (induction ex arbitrary: e; simp add: handle_fields split: prod.splits)+

lemma routes_explorer:
  "routes (RegisterExplorerHandlers ex e) =
     routes e @ map (\<lambda>(m, p, hs). \<lparr>Method = m, Path = p, HandlersChain = Handlers e @ hs\<rparr>) ex"
  unfolding RegisterExplorerHandlers_def
  by (induction ex arbitrary: e) (auto simp: handle_fields)

lemma routerWithMiddleware_eq:
  "routerWithMiddleware cfg =
     \<lparr>RedirectTrailingSlash = False,
      Handlers = [Logger, Recovery] @ (if LogLevel cfg = ''debug'' then [RequestLogger] else []) @
                 [StripTrailingSlashes, Authentication],
      allNoRoute = [Logger, Recovery] @ (if LogLevel cfg = ''debug'' then [RequestLogger] else []) @
                 [StripTrailingSlashes, Authentication],
      routes = []\<rparr>"
  by (simp add: routerWithMiddleware_def gin_Default_def gin_New_def Use_def)

subsection \<open>The route table\<close>

lemma registered_handle: "registered (handle m p hs e) = registered e @ [(m, p)]"
  by (simp add: registered_def handle_def)

lemma registered_registerRoutes:
  "registered (registerRoutes e) = registered e @ registered (registerRoutes (gin_New []))"
proof -
  have "registered (gin_New []) = []"
    by (simp add: gin_New_def registered_def)
  then show ?thesis
    by (simp add: registerRoutes_def Let_def verbs registered_handle)
qed

lemma registered_routerWithMiddleware: "registered (routerWithMiddleware cfg) = []"
  by (simp add: routerWithMiddleware_eq registered_def)

lemma registered_explorer:
  "registered (RegisterExplorerHandlers ex e) = registered e @ map (\<lambda>(m, p, hs). (m, p)) ex"
  by (simp add: registered_def routes_explorer split_def)

lemma core_keys:
  "set (map route_key (registered (registerRoutes (gin_New [])))) = set (map route_key spec_routes)"
  by code_simp

lemma core_distinct: "distinct (map route_key (registered (registerRoutes (gin_New []))))"
  by code_simp

text \<open>
  C1. The routes that \<^verbatim>\<open>CreateRouter\<close> registers itself are, up to the names of the path
  variables, exactly the method and template pairs of the spec's Routes section, each
  registered once; the only other routes of the engine are those that
  \<^verbatim>\<open>RegisterExplorerHandlers\<close> adds after them.
\<close>

theorem route_table_is_spec_routes:
  "set (map route_key (registered (registerRoutes (routerWithMiddleware cfg)))) =
     set (map route_key spec_routes)
   \<and> distinct (map route_key (registered (registerRoutes (routerWithMiddleware cfg))))
   \<and> registered (buildRouter cfg ex) =
       registered (registerRoutes (routerWithMiddleware cfg)) @ map (\<lambda>(m, p, hs). (m, p)) ex"
proof -
  have core: "registered (registerRoutes (routerWithMiddleware cfg)) =
      registered (registerRoutes (gin_New []))"
    using registered_registerRoutes [of "routerWithMiddleware cfg"]
    by (simp add: registered_routerWithMiddleware)
  show ?thesis
    unfolding core buildRouter_def registered_explorer
    using core_keys core_distinct core by simp
qed

subsection \<open>Request logging\<close>

text \<open>
  C6. After \<^verbatim>\<open>CreateRouter\<close> the request logger is among the engine's middleware exactly
  when the log level is the string "debug"; for any other log level gin is in release
  mode, and for "debug" the mode is left as it was.
\<close>

theorem request_logger_iff_debug:
  assumes "CreateRouter ex (s, g) = (s', g')"
  shows "\<exists>e. router s' = Some e
     \<and> (RequestLogger \<in> set (Handlers e)) = (LogLevel (config s) = ''debug'')
     \<and> (RequestLogger \<in> set (allNoRoute e)) = (LogLevel (config s) = ''debug'')
     \<and> ginMode g' = (if LogLevel (config s) = ''debug'' then ginMode g else ReleaseMode)"
  using assms
  by (auto simp: CreateRouter_def buildRouter_def explorer_fields registerRoutes_fields
      routerWithMiddleware_eq setGinGlobals_def)

theorem request_logger_iff_debug_witness:
  "(\<exists>e. router (fst (CreateRouter []
        (\<lparr>config = \<lparr>Port = 8081, DisableTls = False, TLS_CertificatePath = [],
             TLS_CertificateKey = [], LogLevel = ''debug''\<rparr>, router = None, isActive = False\<rparr>,
         \<lparr>ginMode = TestMode, DefaultWriter = Stdout, DefaultErrorWriter = Stderr\<rparr>))) = Some e
      \<and> RequestLogger \<in> set (Handlers e))
   \<and> ginMode (snd (CreateRouter []
        (\<lparr>config = \<lparr>Port = 8081, DisableTls = False, TLS_CertificatePath = [],
             TLS_CertificateKey = [], LogLevel = ''debug''\<rparr>, router = None, isActive = False\<rparr>,
         \<lparr>ginMode = TestMode, DefaultWriter = Stdout, DefaultErrorWriter = Stderr\<rparr>))) = TestMode
   \<and> (\<exists>e. router (fst (CreateRouter []
        (\<lparr>config = \<lparr>Port = 8081, DisableTls = False, TLS_CertificatePath = [],
             TLS_CertificateKey = [], LogLevel = ''DEBUG''\<rparr>, router = None, isActive = False\<rparr>,
         \<lparr>ginMode = TestMode, DefaultWriter = Stdout, DefaultErrorWriter = Stderr\<rparr>))) = Some e
      \<and> RequestLogger \<notin> set (Handlers e))
   \<and> ginMode (snd (CreateRouter []
        (\<lparr>config = \<lparr>Port = 8081, DisableTls = False, TLS_CertificatePath = [],
             TLS_CertificateKey = [], LogLevel = ''DEBUG''\<rparr>, router = None, isActive = False\<rparr>,
         \<lparr>ginMode = TestMode, DefaultWriter = Stdout, DefaultErrorWriter = Stderr\<rparr>))) = ReleaseMode"
  using request_logger_iff_debug [OF surjective_pairing, of "[]"
      "\<lparr>config = \<lparr>Port = 8081, DisableTls = False, TLS_CertificatePath = [],
             TLS_CertificateKey = [], LogLevel = ''debug''\<rparr>, router = None, isActive = False\<rparr>"
      "\<lparr>ginMode = TestMode, DefaultWriter = Stdout, DefaultErrorWriter = Stderr\<rparr>"]
    request_logger_iff_debug [OF surjective_pairing, of "[]"
      "\<lparr>config = \<lparr>Port = 8081, DisableTls = False, TLS_CertificatePath = [],
             TLS_CertificateKey = [], LogLevel = ''DEBUG''\<rparr>, router = None, isActive = False\<rparr>"
      "\<lparr>ginMode = TestMode, DefaultWriter = Stdout, DefaultErrorWriter = Stderr\<rparr>"]
  by auto

section \<open>Properties of a run of the engine\<close>

subsection \<open>The chains of the router\<close>

lemma chains_registerRoutes:
  "HandlersChain ` set (routes (registerRoutes e))
     \<subseteq> HandlersChain ` set (routes e) \<union> {Handlers e @ [Handler h] | h. True}"
  by (simp add: registerRoutes_def Let_def verbs handle_fields)

lemma buildRouter_fields:
  "RedirectTrailingSlash (buildRouter cfg ex) = False"
  "Handlers (buildRouter cfg ex) = Handlers (routerWithMiddleware cfg)"
  "allNoRoute (buildRouter cfg ex) = Handlers (routerWithMiddleware cfg)"
  by (simp_all add: buildRouter_def explorer_fields registerRoutes_fields routerWithMiddleware_eq)

lemma buildRouter_chains:
  assumes "hs \<in> HandlersChain ` set (routes (buildRouter cfg ex))"
  shows "\<exists>rest. hs = Handlers (routerWithMiddleware cfg) @ rest"
proof -
  from assms have "hs \<in> HandlersChain ` set (routes (registerRoutes (routerWithMiddleware cfg)))
      \<or> (\<exists>rest. hs = Handlers (routerWithMiddleware cfg) @ rest)"
    by (auto simp: buildRouter_def routes_explorer registerRoutes_fields)
  moreover have "routes (routerWithMiddleware cfg) = []"
    by (simp add: routerWithMiddleware_eq)
  ultimately show ?thesis
    using chains_registerRoutes [of "routerWithMiddleware cfg"] by auto
qed

lemma middleware_eq:
  "Handlers (routerWithMiddleware cfg) =
     ([Logger, Recovery] @ (if LogLevel cfg = ''debug'' then [RequestLogger] else [])) @
     [StripTrailingSlashes, Authentication]"
  by (simp add: routerWithMiddleware_eq)

lemma auth_first_middleware: "auth_first (Handlers (routerWithMiddleware cfg) @ rest)"
  by (simp add: routerWithMiddleware_eq)

subsection \<open>Authentication before the handler\<close>

lemma guarded_mono: "guarded auth A evs \<Longrightarrow> set A \<subseteq> set B \<Longrightarrow> guarded auth B evs"
proof (induction auth A evs arbitrary: B rule: guarded.induct)
  case (2 auth A r evs)
  then show ?case by (simp add: subset_insertI2) 
next
  case (3 auth A h r evs)
  then show ?case by auto
qed simp_all

lemma guarded_NotFound: "guarded auth A (evs @ [NotFound]) = guarded auth A evs"
  by (induction auth A evs rule: guarded.induct) simp_all

lemma guarded_run:
  assumes sound: "lookup_sound g e"
    and chains: "\<forall>hs \<in> HandlersChain ` set (routes e). auth_first hs"
    and noroute: "auth_first (allNoRoute e)"
  shows "guarded auth [] (handleHTTPRequest g auth e r)"
    and "(r \<in> set A \<and> auth r) \<or> auth_first hs \<Longrightarrow> guarded auth A (Next g auth e hs r)"
  using assms
proof (induction g auth e r and g auth e hs r arbitrary: and A rule: handleHTTPRequest_Next.induct)
  case (1 getValue auth e r)
  show ?case
  proof (cases "getValue (httpMethod r) (urlPath r)")
    case (Pair found tsr)
    show ?thesis
    proof (cases found)
      case None
      show ?thesis
      proof (cases "httpMethod r \<noteq> ''CONNECT'' \<and> urlPath r \<noteq> ''/'' \<and> tsr \<and> RedirectTrailingSlash e")
        case True
        with Pair None show ?thesis by (simp add: handleHTTPRequest.simps)
      next
        case False
        from "1.IH"(1) [OF Pair [symmetric] None False, of "[]"] "1.prems"
        have "guarded auth [] (Next getValue auth e (allNoRoute e) r)" by simp
        with Pair None False show ?thesis
          by (simp add: handleHTTPRequest.simps guarded_NotFound Let_def)
      qed
    next
      case (Some hs)
      with Pair "1.prems"(1) have "hs \<in> HandlersChain ` set (routes e)"
        unfolding lookup_sound_def by blast
      with "1.prems"(2) have "auth_first hs" by blast
      with "1.IH"(2) [OF Pair [symmetric] Some, of "[]"] "1.prems" Pair Some show ?thesis
        by (simp add: handleHTTPRequest.simps)
    qed
  qed
next
  case (2 getValue auth e r)
  then show ?case by simp
next
  case (3 getValue auth e h hs r)
  show ?case
  proof (cases h)
    case StripTrailingSlashes
    show ?thesis
    proof (cases "stripTrailingSlashes r")
      case None
      with "3.IH"(1) [OF StripTrailingSlashes None, of A] "3.prems" StripTrailingSlashes
      show ?thesis by auto
    next
      case (Some r')
      from "3.IH"(2) [OF StripTrailingSlashes Some] "3.prems"
      have "guarded auth [] (handleHTTPRequest getValue auth e r')" by simp
      then have "guarded auth A (handleHTTPRequest getValue auth e r')"
        by (rule guarded_mono) simp
      with StripTrailingSlashes Some show ?thesis by simp
    qed
  next
    case Authentication
    show ?thesis
    proof (cases "auth r")
      case True
      then have n: "authentication auth r = None"
        by (simp add: authentication_def)
      from "3.IH"(3) [OF _ Authentication n, of "r # A"] "3.prems" True Authentication
      have "guarded auth (r # A) (Next getValue auth e hs r)" by simp
      with Authentication n show ?thesis by simp
    next
      case False
      with Authentication show ?thesis by (simp add: authentication_def)
    qed
  next
    case (Handler x)
    with "3.IH"(4) [of A] "3.prems" show ?thesis by auto
  next
    case Logger
    with "3.IH"(4) [of A] "3.prems" show ?thesis by auto
  next
    case Recovery
    with "3.IH"(4) [of A] "3.prems" show ?thesis by auto
  next
    case RequestLogger
    with "3.IH"(4) [of A] "3.prems" show ?thesis by auto
  qed
qed

lemma guarded_split:
  "guarded auth A (pre @ Ran (Handler h) rq # post) \<Longrightarrow>
   (rq \<in> set A \<or> Ran Authentication rq \<in> set pre) \<and> auth rq"
proof (induction auth A pre rule: guarded.induct)
  case (2 auth A r evs)
  then show ?case by auto
qed auto


lemma firstMatch_sound: "lookup_sound (firstMatch e) e"
  by (auto simp: lookup_sound_def firstMatch_def find_Some_iff split: option.splits)

text \<open>
  C2. Every chain registered by \<^verbatim>\<open>CreateRouter\<close> starts with the engine's middleware,
  which ends with Authentication, so Authentication stands before the route's handlers.
  In a run of the engine on any request, a route handler is executed only after
  Authentication has been executed on the same request, and only on a request that
  Authentication accepts.
\<close>

theorem authentication_before_handler:
  assumes "lookup_sound getValue (buildRouter cfg ex)"
  shows "(\<forall>hs \<in> HandlersChain ` set (routes (buildRouter cfg ex)).
            \<exists>rest. hs = [Logger, Recovery] @
                          (if LogLevel cfg = ''debug'' then [RequestLogger] else []) @
                          [StripTrailingSlashes, Authentication] @ rest)
     \<and> (\<forall>pre h rq post.
            handleHTTPRequest getValue auth (buildRouter cfg ex) r = pre @ Ran (Handler h) rq # post
            \<longrightarrow> Ran Authentication rq \<in> set pre \<and> auth rq)"
proof -
  have shape: "\<exists>rest. hs = [Logger, Recovery] @
        (if LogLevel cfg = ''debug'' then [RequestLogger] else []) @
        [StripTrailingSlashes, Authentication] @ rest"
    if "hs \<in> HandlersChain ` set (routes (buildRouter cfg ex))" for hs
    using buildRouter_chains [OF that] by (auto simp: middleware_eq)
  have first: "\<forall>hs \<in> HandlersChain ` set (routes (buildRouter cfg ex)). auth_first hs"
    using buildRouter_chains auth_first_middleware by metis
  have "auth_first (allNoRoute (buildRouter cfg ex))"
    using auth_first_middleware [of cfg "[]"] by (simp add: buildRouter_fields)
  with assms first
  have "guarded auth [] (handleHTTPRequest getValue auth (buildRouter cfg ex) r)"
    by (rule guarded_run(1))
  then have "Ran Authentication rq \<in> set pre \<and> auth rq"
    if "handleHTTPRequest getValue auth (buildRouter cfg ex) r = pre @ Ran (Handler h) rq # post"
    for pre h rq post
    using guarded_split [of auth "[]" pre h rq post] that by simp
  with shape show ?thesis by blast
qed

theorem authentication_before_handler_witness:
  "lookup_sound (firstMatch (buildRouter (sample_config False [] [] ''info'') []))
       (buildRouter (sample_config False [] [] ''info'') [])
   \<and> (\<forall>h rq. Ran (Handler h) rq \<notin> set (handleHTTPRequest
         (firstMatch (buildRouter (sample_config False [] [] ''info'') [])) (\<lambda>r. False)
         (buildRouter (sample_config False [] [] ''info'') [])
         (sample_request ''GET'' ''/dbs/'')))"
proof -
  have s: "lookup_sound (firstMatch (buildRouter (sample_config False [] [] ''info'') []))
       (buildRouter (sample_config False [] [] ''info'') [])"
    by (rule firstMatch_sound)
  from authentication_before_handler [OF s, of "\<lambda>r. False" "sample_request ''GET'' ''/dbs/''"]
  have "\<forall>pre h rq post. handleHTTPRequest
         (firstMatch (buildRouter (sample_config False [] [] ''info'') [])) (\<lambda>r. False)
         (buildRouter (sample_config False [] [] ''info'') [])
         (sample_request ''GET'' ''/dbs/'') \<noteq> pre @ Ran (Handler h) rq # post"
    by blast
  then have "\<forall>h rq. Ran (Handler h) rq \<notin> set (handleHTTPRequest
         (firstMatch (buildRouter (sample_config False [] [] ''info'') [])) (\<lambda>r. False)
         (buildRouter (sample_config False [] [] ''info'') [])
         (sample_request ''GET'' ''/dbs/''))"
    by (meson split_list)
  with s show ?thesis by blast
qed

subsection \<open>Trailing slashes\<close>

lemma no_redirect:
  "RedirectTrailingSlash e = False \<Longrightarrow> Redirected \<notin> set (handleHTTPRequest g auth e r)"
  "RedirectTrailingSlash e = False \<Longrightarrow> Redirected \<notin> set (Next g auth e hs r)"
  by (induction g auth e r and g auth e hs r rule: handleHTTPRequest_Next.induct)
     (auto simp: handleHTTPRequest.simps authentication_def Let_def
        split: prod.splits option.splits if_splits)

lemma Next_passes:
  "\<forall>h \<in> set pre. h \<noteq> StripTrailingSlashes \<and> h \<noteq> Authentication \<Longrightarrow>
   Next g auth e (pre @ hs) r = map (\<lambda>h. Ran h r) pre @ Next g auth e hs r"
  by (induction pre) auto

lemma Next_strips:
  assumes "hasTrailingSlash (urlPath r)"
  shows "Next g auth e (Handlers (routerWithMiddleware cfg) @ rest) r =
     map (\<lambda>h. Ran h r) ([Logger, Recovery] @ (if LogLevel cfg = ''debug'' then [RequestLogger] else [])) @
     Ran StripTrailingSlashes r # HandleContext (r\<lparr>urlPath := butlast (urlPath r)\<rparr>) #
     handleHTTPRequest g auth e (r\<lparr>urlPath := butlast (urlPath r)\<rparr>)"
  using assms
  by (simp add: routerWithMiddleware_eq stripTrailingSlashes_def)

lemma run_strips:
  assumes sound: "lookup_sound g (buildRouter cfg ex)"
    and slash: "hasTrailingSlash (urlPath r)"
  shows "handleHTTPRequest g auth (buildRouter cfg ex) r =
     map (\<lambda>h. Ran h r) ([Logger, Recovery] @ (if LogLevel cfg = ''debug'' then [RequestLogger] else [])) @
     Ran StripTrailingSlashes r # HandleContext (r\<lparr>urlPath := butlast (urlPath r)\<rparr>) #
     handleHTTPRequest g auth (buildRouter cfg ex) (r\<lparr>urlPath := butlast (urlPath r)\<rparr>)"
proof (cases "g (httpMethod r) (urlPath r)")
  case (Pair found tsr)
  show ?thesis
  proof (cases found)
    case None
    have "Next g auth (buildRouter cfg ex) (allNoRoute (buildRouter cfg ex)) r =
      map (\<lambda>h. Ran h r) ([Logger, Recovery] @ (if LogLevel cfg = ''debug'' then [RequestLogger] else [])) @
      Ran StripTrailingSlashes r # HandleContext (r\<lparr>urlPath := butlast (urlPath r)\<rparr>) #
      handleHTTPRequest g auth (buildRouter cfg ex) (r\<lparr>urlPath := butlast (urlPath r)\<rparr>)"
      using Next_strips [OF slash, of g auth "buildRouter cfg ex" cfg "[]"]
      by (simp add: buildRouter_fields)
    with Pair None show ?thesis
      by (simp add: handleHTTPRequest.simps [of g auth _ r] buildRouter_fields Let_def)
  next
    case (Some hs)
    with Pair sound have "hs \<in> HandlersChain ` set (routes (buildRouter cfg ex))"
      unfolding lookup_sound_def by blast
    then obtain rest where "hs = Handlers (routerWithMiddleware cfg) @ rest"
      using buildRouter_chains by blast
    with Pair Some Next_strips [OF slash, of g auth "buildRouter cfg ex" cfg rest]
    show ?thesis by (simp add: handleHTTPRequest.simps [of g auth _ r])
  qed
qed

lemma run_canonical:
  assumes sound: "lookup_sound g (buildRouter cfg ex)"
  shows "urlPath r = p \<Longrightarrow>
     \<exists>pre. list_all rewrite_only pre \<and>
       handleHTTPRequest g auth (buildRouter cfg ex) r =
         pre @ handleHTTPRequest g auth (buildRouter cfg ex) (r\<lparr>urlPath := canonical p\<rparr>)"
proof (induction p arbitrary: r rule: canonical.induct)
  case (1 p)
  show ?case
  proof (cases "hasTrailingSlash p")
    case False
    with 1(2) have "r\<lparr>urlPath := canonical p\<rparr> = r"
      by (simp add: canonical.simps [of p])
    then show ?thesis by (intro exI [of _ "[]"]) simp
  next
    case True
    let ?r' = "r\<lparr>urlPath := butlast p\<rparr>"
    from 1(1) [OF True, of ?r'] obtain pre where
      pre: "list_all rewrite_only pre"
        "handleHTTPRequest g auth (buildRouter cfg ex) ?r' =
           pre @ handleHTTPRequest g auth (buildRouter cfg ex) (?r'\<lparr>urlPath := canonical (butlast p)\<rparr>)"
      by auto
    have c: "canonical p = canonical (butlast p)"
      using True by (simp add: canonical.simps [of p])
    let ?pre = "map (\<lambda>h. Ran h r) ([Logger, Recovery] @ (if LogLevel cfg = ''debug'' then [RequestLogger] else [])) @
       Ran StripTrailingSlashes r # HandleContext ?r' # pre"
    have "list_all rewrite_only ?pre"
      using pre(1) by simp
    moreover have "handleHTTPRequest g auth (buildRouter cfg ex) r =
        ?pre @ handleHTTPRequest g auth (buildRouter cfg ex) (r\<lparr>urlPath := canonical p\<rparr>)"
      using run_strips [OF sound, of r auth] True 1(2) pre(2) c by simp
    ultimately show ?thesis by blast
  qed
qed

lemma canonical_no_slash: "\<not> hasTrailingSlash (canonical p)"
proof (induction p rule: canonical.induct)
  case (1 p)
  then show ?case
    by (cases "hasTrailingSlash p") (simp_all add: canonical.simps [of p])
qed


text \<open>
  C5. The router built by \<^verbatim>\<open>CreateRouter\<close> has trailing-slash redirection switched off,
  and no run of it ever redirects. A request whose path carries a trailing slash passes
  gin's Logger and Recovery (and the request logger, if installed) and reaches
  StripTrailingSlashes, which hands the request without that slash back to the engine;
  nothing else happens on the path with the slash. So the run continues as the run on
  the canonical, slash-free path, before any authentication or route handler.
\<close>

theorem trailing_slash_rewritten_never_redirected:
  assumes "lookup_sound getValue (buildRouter cfg ex)"
  shows "RedirectTrailingSlash (buildRouter cfg ex) = False
     \<and> Redirected \<notin> set (handleHTTPRequest getValue auth (buildRouter cfg ex) r)
     \<and> (hasTrailingSlash (urlPath r) \<longrightarrow>
          handleHTTPRequest getValue auth (buildRouter cfg ex) r =
            map (\<lambda>h. Ran h r)
              ([Logger, Recovery] @ (if LogLevel cfg = ''debug'' then [RequestLogger] else [])) @
            Ran StripTrailingSlashes r # HandleContext (r\<lparr>urlPath := butlast (urlPath r)\<rparr>) #
            handleHTTPRequest getValue auth (buildRouter cfg ex) (r\<lparr>urlPath := butlast (urlPath r)\<rparr>))
     \<and> (\<exists>pre. list_all rewrite_only pre \<and>
          handleHTTPRequest getValue auth (buildRouter cfg ex) r =
            pre @ handleHTTPRequest getValue auth (buildRouter cfg ex)
                    (r\<lparr>urlPath := canonical (urlPath r)\<rparr>))
     \<and> \<not> hasTrailingSlash (canonical (urlPath r))"
  using buildRouter_fields(1) [of cfg ex]
    no_redirect(1) [OF buildRouter_fields(1), of getValue auth cfg ex r]
    run_strips [OF assms, of r auth]
    run_canonical [OF assms refl, of auth r]
    canonical_no_slash [of "urlPath r"]
  by blast

theorem trailing_slash_rewritten_never_redirected_witness:
  "lookup_sound (firstMatch (buildRouter (sample_config False [] [] ''debug'') []))
       (buildRouter (sample_config False [] [] ''debug'') [])
   \<and> hasTrailingSlash (urlPath (sample_request ''GET'' ''/dbs/db1/colls/''))
   \<and> handleHTTPRequest (firstMatch (buildRouter (sample_config False [] [] ''debug'') [])) (\<lambda>r. True)
         (buildRouter (sample_config False [] [] ''debug'') [])
         (sample_request ''GET'' ''/dbs/db1/colls/'') =
       [Ran Logger (sample_request ''GET'' ''/dbs/db1/colls/''),
        Ran Recovery (sample_request ''GET'' ''/dbs/db1/colls/''),
        Ran RequestLogger (sample_request ''GET'' ''/dbs/db1/colls/''),
        Ran StripTrailingSlashes (sample_request ''GET'' ''/dbs/db1/colls/''),
        HandleContext (sample_request ''GET'' ''/dbs/db1/colls'')] @
       handleHTTPRequest (firstMatch (buildRouter (sample_config False [] [] ''debug'') [])) (\<lambda>r. True)
         (buildRouter (sample_config False [] [] ''debug'') [])
         (sample_request ''GET'' ''/dbs/db1/colls'')"
proof -
  have s: "lookup_sound (firstMatch (buildRouter (sample_config False [] [] ''debug'') []))
       (buildRouter (sample_config False [] [] ''debug'') [])"
    by (rule firstMatch_sound)
  have h: "hasTrailingSlash (urlPath (sample_request ''GET'' ''/dbs/db1/colls/''))"
    by (simp add: hasTrailingSlash_def)
  have b: "sample_request ''GET'' ''/dbs/db1/colls/''
      \<lparr>urlPath := butlast (urlPath (sample_request ''GET'' ''/dbs/db1/colls/''))\<rparr>
    = sample_request ''GET'' ''/dbs/db1/colls''"
    by simp
  from trailing_slash_rewritten_never_redirected
    [OF s, of "\<lambda>r. True" "sample_request ''GET'' ''/dbs/db1/colls/''"] h
  have "handleHTTPRequest (firstMatch (buildRouter (sample_config False [] [] ''debug'') [])) (\<lambda>r. True)
         (buildRouter (sample_config False [] [] ''debug'') [])
         (sample_request ''GET'' ''/dbs/db1/colls/'') =
       map (\<lambda>h. Ran h (sample_request ''GET'' ''/dbs/db1/colls/''))
         ([Logger, Recovery] @
          (if LogLevel (sample_config False [] [] ''debug'') = ''debug'' then [RequestLogger] else [])) @
       Ran StripTrailingSlashes (sample_request ''GET'' ''/dbs/db1/colls/'') #
       HandleContext (sample_request ''GET'' ''/dbs/db1/colls/''
          \<lparr>urlPath := butlast (urlPath (sample_request ''GET'' ''/dbs/db1/colls/''))\<rparr>) #
       handleHTTPRequest (firstMatch (buildRouter (sample_config False [] [] ''debug'') [])) (\<lambda>r. True)
         (buildRouter (sample_config False [] [] ''debug'') [])
         (sample_request ''GET'' ''/dbs/db1/colls/''
          \<lparr>urlPath := butlast (urlPath (sample_request ''GET'' ''/dbs/db1/colls/''))\<rparr>)"
    by blast
  then show ?thesis
    unfolding b using s h by simp
qed

section \<open>Properties of Start\<close>

subsection \<open>The listener\<close>

lemma Start_Some:
  assumes "router s = Some r"
  shows "\<exists>out. Start s env = Inr out
     \<and> (server out, call out) =
         (case listenAndServe (config s) \<lparr>Addr = '':'' @ itoa (Port (config s)), TLSConfig = None\<rparr>
          of (srv, line, c) \<Rightarrow> (srv, c))"
  using assms
  by (auto simp: Start_def Let_def split: prod.splits option.splits)

lemma mode_of_listenAndServe:
  "TLSConfig srv = None \<Longrightarrow>
   (case listenAndServe cfg srv of (srv', line, c) \<Rightarrow> mode_of srv' c) = spec_listener_mode cfg"
  by (simp add: listenAndServe_def spec_listener_mode_def Let_def)

text \<open>
  C3. \<^verbatim>\<open>Start\<close> on a server with a router always reaches a listener call, and the mode
  of that call is the one the spec selects from the configuration: plain HTTP when TLS
  is disabled; otherwise HTTPS from the operator's two files when both paths are set;
  otherwise HTTPS with the certificate of the TLS materials provider.
\<close>

theorem Start_listener_mode:
  assumes "router s = Some r"
  shows "\<exists>out. Start s env = Inr out
     \<and> mode_of (server out) (call out) = spec_listener_mode (config s)"
proof -
  from Start_Some [OF assms, of env] obtain out where
    out: "Start s env = Inr out" and
    sc: "(server out, call out) =
         (case listenAndServe (config s) \<lparr>Addr = '':'' @ itoa (Port (config s)), TLSConfig = None\<rparr>
          of (srv, line, c) \<Rightarrow> (srv, c))"
    by blast
  have "mode_of (server out) (call out) = spec_listener_mode (config s)"
    using sc mode_of_listenAndServe [of "\<lparr>Addr = '':'' @ itoa (Port (config s)), TLSConfig = None\<rparr>" "config s"]
    by (auto split: prod.splits)
  with out show ?thesis by blast
qed

theorem Start_listener_mode_witness:
  "(\<exists>out. Start (sample_server (sample_config True [] [] ''info'')) (failing_at 7) = Inr out
      \<and> mode_of (server out) (call out) = PlainHTTP)
   \<and> (\<exists>out. Start (sample_server (sample_config False ''c.pem'' ''k.pem'' ''info'')) (failing_at 7) = Inr out
      \<and> mode_of (server out) (call out) = HTTPS_OperatorFiles ''c.pem'' ''k.pem'')
   \<and> (\<exists>out. Start (sample_server (sample_config False [] [] ''info'')) (failing_at 7) = Inr out
      \<and> mode_of (server out) (call out) = HTTPS_BuiltIn GetDefaultTlsConfig)"
  using Start_listener_mode [of "sample_server (sample_config True [] [] ''info'')" _ "failing_at 7"]
    Start_listener_mode [of "sample_server (sample_config False ''c.pem'' ''k.pem'' ''info'')" _ "failing_at 7"]
    Start_listener_mode [of "sample_server (sample_config False [] [] ''info'')" _ "failing_at 7"]
  by (simp add: spec_listener_mode_def)

text \<open>
  C9. When \<^verbatim>\<open>DisableTls\<close> is set, \<^verbatim>\<open>Start\<close> calls \<^verbatim>\<open>ListenAndServe\<close> on a server
  without TLS configuration, that is plain HTTP, whatever the certificate and key paths
  are.
\<close>

theorem DisableTls_takes_precedence:
  assumes "DisableTls (config s)" and "router s = Some r"
  shows "\<exists>out. Start s env = Inr out \<and> call out = ListenAndServe
     \<and> TLSConfig (server out) = None \<and> mode_of (server out) (call out) = PlainHTTP"
  using Start_Some [OF assms(2), of env] assms(1)
  by (auto simp: listenAndServe_def)

theorem DisableTls_takes_precedence_witness:
  "DisableTls (sample_config True ''c.pem'' ''k.pem'' ''info'')
   \<and> TLS_CertificatePath (sample_config True ''c.pem'' ''k.pem'' ''info'') \<noteq> []
   \<and> TLS_CertificateKey (sample_config True ''c.pem'' ''k.pem'' ''info'') \<noteq> []
   \<and> (\<exists>out. Start (sample_server (sample_config True ''c.pem'' ''k.pem'' ''info'')) (failing_at 7) = Inr out
        \<and> call out = ListenAndServe \<and> mode_of (server out) (call out) = PlainHTTP)"
  using DisableTls_takes_precedence
    [of "sample_server (sample_config True ''c.pem'' ''k.pem'' ''info'')" _ "failing_at 7"]
  by auto

text \<open>
  C10. With TLS not disabled and exactly one of the two paths non-empty, \<^verbatim>\<open>Start\<close>
  calls \<^verbatim>\<open>ListenAndServeTLS\<close> with two empty file names on a server that carries the
  built-in TLS configuration: the path that was given appears nowhere. Whenever the call
  names a file at all, both paths are non-empty, TLS is not disabled, and the files are
  the two configured ones.
\<close>

theorem one_path_alone_is_ignored:
  assumes "router s = Some r"
  shows "\<exists>out. Start s env = Inr out
     \<and> (\<not> DisableTls (config s)
          \<and> (TLS_CertificatePath (config s) = []) \<noteq> (TLS_CertificateKey (config s) = [])
        \<longrightarrow> call out = ListenAndServeTLS [] []
          \<and> TLSConfig (server out) = Some GetDefaultTlsConfig
          \<and> mode_of (server out) (call out) = HTTPS_BuiltIn GetDefaultTlsConfig)
     \<and> (\<forall>certFile keyFile. call out = ListenAndServeTLS certFile keyFile
            \<and> (certFile \<noteq> [] \<or> keyFile \<noteq> [])
        \<longrightarrow> \<not> DisableTls (config s)
          \<and> certFile = TLS_CertificatePath (config s) \<and> certFile \<noteq> []
          \<and> keyFile = TLS_CertificateKey (config s) \<and> keyFile \<noteq> []
          \<and> TLSConfig (server out) = None)"
  using Start_Some [OF assms, of env]
  by (auto simp: listenAndServe_def Let_def split: if_splits)

theorem one_path_alone_is_ignored_witness:
  "\<not> DisableTls (sample_config False ''c.pem'' [] ''info'')
   \<and> (TLS_CertificatePath (sample_config False ''c.pem'' [] ''info'') = [])
       \<noteq> (TLS_CertificateKey (sample_config False ''c.pem'' [] ''info'') = [])
   \<and> (\<exists>out. Start (sample_server (sample_config False ''c.pem'' [] ''info'')) (failing_at 7) = Inr out
        \<and> call out = ListenAndServeTLS [] []
        \<and> TLSConfig (server out) = Some GetDefaultTlsConfig)
   \<and> (\<exists>out. Start (sample_server (sample_config False ''c.pem'' ''k.pem'' ''info'')) (failing_at 7) = Inr out
        \<and> call out = ListenAndServeTLS ''c.pem'' ''k.pem''
        \<and> TLSConfig (server out) = None)"
proof -
  have "\<exists>out. Start (sample_server (sample_config False ''c.pem'' ''k.pem'' ''info'')) (failing_at 7) = Inr out
        \<and> call out = ListenAndServeTLS ''c.pem'' ''k.pem'' \<and> TLSConfig (server out) = None"
    by (simp add: Start_def listenAndServe_def listener_returns_def listenerDone_def Let_def)
  then show ?thesis
    using one_path_alone_is_ignored
      [of "sample_server (sample_config False ''c.pem'' [] ''info'')" _ "failing_at 7"]
    by auto
qed

subsection \<open>The start-up window\<close>

lemma listener_returns_failure:
  "listener_returns env = Some (t, Some e) \<Longrightarrow> e \<noteq> ErrServerClosed \<Longrightarrow>
   listen_failure env = Some (t, e)"
  by (auto simp: listener_returns_def split: option.splits if_splits prod.splits)

text \<open>
  C8. \<^verbatim>\<open>Start\<close> returns within the start-up window of 50 ms. It returns an error only
  if the listener failed by itself, with that error, no later than the end of the
  window. If the listener call returns after the window, \<^verbatim>\<open>Start\<close> has returned nil at
  the end of the window, while \<^verbatim>\<open>isActive\<close> was still set; the failure is then logged,
  its error stays unread on \<^verbatim>\<open>errChan\<close>, and \<^verbatim>\<open>isActive\<close> is cleared.
\<close>

theorem Start_returns_error_only_in_window:
  assumes "Start s env = Inr out"
  shows "returned_at out \<le> startup_window
     \<and> (\<forall>e. returned out = Some e \<longrightarrow>
          (\<exists>t \<le> startup_window. listen_failure env = Some (t, e) \<and> e \<noteq> ErrServerClosed
             \<and> listener_returns env = Some (t, Some e) \<and> returned_at out = t))
     \<and> (\<forall>t e. listener_returns env = Some (t, Some e) \<and> startup_window < t \<longrightarrow>
          returned out = None \<and> returned_at out = startup_window
          \<and> active out (returned_at out) \<and> \<not> active out t
          \<and> (e \<noteq> ErrServerClosed \<longrightarrow>
               (t, LogError ''Failed to start server:'' (Some e)) \<in> set (logged out)
               \<and> errChan_unread out = [Some e]))"
proof -
  obtain r where r: "router s = Some r"
    using assms by (auto simp: Start_def split: option.splits)
  show ?thesis
  proof (cases "listener_returns env")
    case None
    with assms r show ?thesis
      by (auto simp: Start_def Let_def split: prod.splits)
  next
    case (Some te)
    obtain t err where te: "te = (t, err)" by (cases te)
    have fail: "err = Some e \<Longrightarrow> e \<noteq> ErrServerClosed \<Longrightarrow> listen_failure env = Some (t, e)" for e
      using listener_returns_failure [of env t e] Some te by simp
    from assms r Some te fail show ?thesis
      by (auto simp: Start_def Let_def listenerDone_def split: prod.splits if_splits)
  qed
qed

theorem Start_returns_error_only_in_window_witness:
  "(\<exists>out. Start (sample_server (sample_config False [] [] ''info'')) (failing_at 60000000) = Inr out
      \<and> listener_returns (failing_at 60000000)
          = Some (60000000, Some (OtherError ''bind: address already in use''))
      \<and> startup_window < 60000000
      \<and> returned out = None \<and> returned_at out = startup_window
      \<and> errChan_unread out = [Some (OtherError ''bind: address already in use'')]
      \<and> \<not> active out 60000000)
   \<and> (\<exists>out. Start (sample_server (sample_config False [] [] ''info'')) (failing_at 3000000) = Inr out
      \<and> returned out = Some (OtherError ''bind: address already in use'')
      \<and> returned_at out = 3000000)"
proof -
  have a: "\<exists>out. Start (sample_server (sample_config False [] [] ''info'')) (failing_at 60000000) = Inr out"
    and b: "\<exists>out. Start (sample_server (sample_config False [] [] ''info'')) (failing_at 3000000) = Inr out
         \<and> returned out = Some (OtherError ''bind: address already in use'')"
    by (simp_all add: Start_def listenAndServe_def listener_returns_def listenerDone_def Let_def
        startup_window_def)
  have c: "listener_returns (failing_at 60000000)
      = Some (60000000, Some (OtherError ''bind: address already in use''))"
    and d: "startup_window < 60000000"
    by (simp_all add: listener_returns_def startup_window_def)
  from a obtain out where o: "Start (sample_server (sample_config False [] [] ''info'')) (failing_at 60000000) = Inr out"
    by blast
  from b obtain out' where o': "Start (sample_server (sample_config False [] [] ''info'')) (failing_at 3000000) = Inr out'"
    and r': "returned out' = Some (OtherError ''bind: address already in use'')"
    by blast
  have l': "listen_failure (failing_at 3000000) = Some (3000000, OtherError ''bind: address already in use'')"
    by simp
  from Start_returns_error_only_in_window [OF o] c d
  have "returned out = None \<and> returned_at out = startup_window
      \<and> errChan_unread out = [Some (OtherError ''bind: address already in use'')]
      \<and> \<not> active out 60000000"
    by auto
  moreover from Start_returns_error_only_in_window [OF o'] r' l'
  have "returned_at out' = 3000000"
    by auto
  ultimately show ?thesis
    using o o' r' c d by auto
qed

subsection \<open>Shutdown\<close>

lemma idle_at_None: "idle_at now conns = None \<longleftrightarrow> None \<in> set conns"
  by (auto simp: idle_at_def list_all_iff)

lemma idle_at_Some:
  "None \<notin> set conns \<Longrightarrow> idle_at now conns = Some (Max (insert now (the ` set conns)))"
proof -
  assume "None \<notin> set conns"
  then have "list_all (\<lambda>c. c \<noteq> None) conns"
    unfolding list_all_iff by metis
  moreover have "fold max (map the conns) now = Max (set (now # map the conns))"
    by (simp only: Max.set_eq_fold)
  ultimately show ?thesis
    by (simp add: idle_at_def)
qed

lemma noticed_at_None: "noticed_at now lag conns = None \<longleftrightarrow> None \<in> set conns"
  using idle_at_None [of now conns]
  by (cases "idle_at now conns") (auto simp: noticed_at_def)

lemma noticed_at_Some:
  assumes "None \<notin> set conns"
  shows "\<exists>t. noticed_at now lag conns = Some t \<and> now \<le> t \<and> (\<forall>c \<in> set conns. the c \<le> t)
     \<and> t \<le> Max (insert now (the ` set conns)) + lag"
proof -
  let ?m = "Max (insert now (the ` set conns))"
  have m: "now \<le> ?m" "\<forall>c \<in> set conns. the c \<le> ?m"
    by simp_all
  have "noticed_at now lag conns = Some (if ?m = now then now else ?m + lag)"
    using idle_at_Some [OF assms, of now] by (simp add: noticed_at_def)
  moreover have "now \<le> (if ?m = now then now else ?m + lag)"
    using m(1) by (simp add: trans_le_add1)
  moreover have "\<forall>c \<in> set conns. the c \<le> (if ?m = now then now else ?m + lag)"
  proof (intro ballI)
    fix c
    assume "c \<in> set conns"
    with m(2) have "the c \<le> ?m" by blast
    then show "the c \<le> (if ?m = now then now else ?m + lag)"
      by (cases "?m = now") simp_all
  qed
  moreover have "(if ?m = now then now else ?m + lag) \<le> ?m + lag"
    by simp
  ultimately show ?thesis by blast
qed

lemma shutdownGoroutine_never:
  assumes "stop_signal env = Some t0" and "None \<in> set (in_flight env)"
  shows "shutdownGoroutine env =
      [(t0, Logged (LogInfo ''Shutting down server...'')), (t0, ShutdownCalled TODO)]"
  using assms noticed_at_None [of t0 "poll_lag env" "in_flight env"]
  by (simp add: shutdownGoroutine_def Shutdown_def)

lemma shutdownGoroutine_returns:
  assumes "stop_signal env = Some t0" and "noticed_at t0 (poll_lag env) (in_flight env) = Some t"
  shows "shutdownGoroutine env =
      [(t0, Logged (LogInfo ''Shutting down server...'')), (t0, ShutdownCalled TODO)] @
      (case close_error env of
         None \<Rightarrow> []
       | Some e \<Rightarrow> [(t, Logged (LogError ''Failed to shutdown server:'' (Some e)))]) @
      [(t, Notified True)]"
  using assms
  by (simp add: shutdownGoroutine_def Shutdown_def split: option.splits)

lemma accepting_stops:
  assumes "stop_signal env = Some t0" and "t0 \<le> t"
  shows "\<not> accepting env t"
  using assms
  by (auto simp: accepting_def listener_returns_def split: option.splits prod.splits)

text \<open>
  C4, as the code has it. On the stop signal the goroutine logs and calls \<^verbatim>\<open>Shutdown\<close>
  with \<^verbatim>\<open>context.TODO()\<close>, which has no deadline; from that instant the server accepts
  no new connection. The goroutine never calls \<^verbatim>\<open>Close\<close>. If a handler in flight never
  returns, the goroutine does nothing more and the notification is never sent. Otherwise
  \<^verbatim>\<open>Shutdown\<close> returns at some instant that is not before the stop signal nor before
  the return of any handler in flight, however late that is; at that instant the
  goroutine logs the error of \<^verbatim>\<open>Shutdown\<close>, if there is one, and then sends the
  notification, which is the last thing it does.
\<close>

theorem shutdown_waits_for_handlers:
  assumes "stop_signal env = Some t0"
  shows "Deadline TODO = None
     \<and> (\<forall>t. t0 \<le> t \<longrightarrow> \<not> accepting env t)
     \<and> (\<forall>t. (t, CloseCalled) \<notin> set (shutdownGoroutine env))
     \<and> (None \<in> set (in_flight env) \<longrightarrow>
          notified_at env = None
          \<and> shutdownGoroutine env =
              [(t0, Logged (LogInfo ''Shutting down server...'')), (t0, ShutdownCalled TODO)])
     \<and> (None \<notin> set (in_flight env) \<longrightarrow>
          (\<exists>t. notified_at env = Some t
             \<and> t0 \<le> t \<and> (\<forall>c \<in> set (in_flight env). the c \<le> t)
             \<and> shutdownGoroutine env =
                 [(t0, Logged (LogInfo ''Shutting down server...'')), (t0, ShutdownCalled TODO)] @
                 (case close_error env of
                    None \<Rightarrow> []
                  | Some e \<Rightarrow> [(t, Logged (LogError ''Failed to shutdown server:'' (Some e)))]) @
                 [(t, Notified True)]))"
proof -
  have a: "\<forall>t. t0 \<le> t \<longrightarrow> \<not> accepting env t"
    using accepting_stops [OF assms] by blast
  have never: "notified_at env = None
      \<and> shutdownGoroutine env =
          [(t0, Logged (LogInfo ''Shutting down server...'')), (t0, ShutdownCalled TODO)]"
    if "None \<in> set (in_flight env)"
    using shutdownGoroutine_never [OF assms that] by (simp add: notified_at_def)
  have returns: "\<exists>t. notified_at env = Some t
      \<and> t0 \<le> t \<and> (\<forall>c \<in> set (in_flight env). the c \<le> t)
      \<and> shutdownGoroutine env =
          [(t0, Logged (LogInfo ''Shutting down server...'')), (t0, ShutdownCalled TODO)] @
          (case close_error env of
             None \<Rightarrow> []
           | Some e \<Rightarrow> [(t, Logged (LogError ''Failed to shutdown server:'' (Some e)))]) @
          [(t, Notified True)]"
    if "None \<notin> set (in_flight env)"
  proof -
    from noticed_at_Some [OF that, of t0 "poll_lag env"] obtain t where
      t: "noticed_at t0 (poll_lag env) (in_flight env) = Some t" "t0 \<le> t"
        "\<forall>c \<in> set (in_flight env). the c \<le> t"
      by blast
    note g = shutdownGoroutine_returns [OF assms t(1)]
    have "notified_at env = Some t"
      unfolding notified_at_def g by (simp split: option.splits)
    with t(2,3) g show ?thesis by blast
  qed
  have c: "\<forall>t. (t, CloseCalled) \<notin> set (shutdownGoroutine env)"
  proof (cases "None \<in> set (in_flight env)")
    case True
    with never show ?thesis by simp
  next
    case False
    with returns obtain t where
      "shutdownGoroutine env =
          [(t0, Logged (LogInfo ''Shutting down server...'')), (t0, ShutdownCalled TODO)] @
          (case close_error env of
             None \<Rightarrow> []
           | Some e \<Rightarrow> [(t, Logged (LogError ''Failed to shutdown server:'' (Some e)))]) @
          [(t, Notified True)]"
      by blast
    then show ?thesis by (simp split: option.splits)
  qed
  from a c never returns show ?thesis by simp
qed

theorem shutdown_waits_for_handlers_witness:
  "stop_signal (stopped_with_error [Some 5, Some 9000000000]) = Some 0
   \<and> None \<notin> set (in_flight (stopped_with_error [Some 5, Some 9000000000]))
   \<and> \<not> accepting (stopped_with_error [Some 5, Some 9000000000]) 0
   \<and> (\<exists>t. notified_at (stopped_with_error [Some 5, Some 9000000000]) = Some t
        \<and> 9000000000 \<le> t
        \<and> shutdownGoroutine (stopped_with_error [Some 5, Some 9000000000]) =
            [(0, Logged (LogInfo ''Shutting down server...'')), (0, ShutdownCalled TODO),
             (t, Logged (LogError ''Failed to shutdown server:''
                   (Some (OtherError ''close tcp: use of closed network connection'')))),
             (t, Notified True)])"
proof -
  have s: "stop_signal (stopped_with_error [Some 5, Some 9000000000]) = Some 0"
    by simp
  have n: "None \<notin> set (in_flight (stopped_with_error [Some 5, Some 9000000000]))"
    by simp
  from shutdown_waits_for_handlers [OF s] n show ?thesis
    by auto
qed

text \<open>
  C4, as stated, fails: with one handler in flight that never returns, the goroutine
  calls \<^verbatim>\<open>Shutdown\<close> without a deadline and does nothing after it: no connection is
  closed, and the notification is never sent. With a handler that returns after an hour
  (3600 s, in nanoseconds), the notification is sent after that hour: no grace window
  has cut the wait short.
\<close>

theorem shutdown_grace_window_counterexample:
  "Deadline TODO = None
   \<and> shutdownGoroutine (stopped_with [None]) =
       [(0, Logged (LogInfo ''Shutting down server...'')), (0, ShutdownCalled TODO)]
   \<and> notified_at (stopped_with [None]) = None
   \<and> notified_at (stopped_with [Some 3600000000000]) = Some 3600000000000"
  by (simp add: shutdownGoroutine_def Shutdown_def noticed_at_def idle_at_def notified_at_def)

end
